theory Spec2Isabelle
  imports Main "HOL-Library.Multiset"
begin

section \<open>Python values used by scrabble_real_code.py\<close>

text \<open>
  The program is a Python 3 script. Strings are modelled as \<^typ>\<open>string\<close> (all text the
  program builds itself is ASCII), Python's unbounded integers as \<^typ>\<open>int\<close>, lists as
  HOL lists. An uncaught exception ends the program; it is modelled as the \<open>Inl\<close> branch
  of a sum type.
\<close>

datatype py_error = IndexError | KeyError | TypeError | ValueError | FileNotFoundError

text \<open>\<open>xs[i]\<close>: a negative index counts from the end, anything else out of range raises.\<close>

definition py_index :: "'a list \<Rightarrow> int \<Rightarrow> py_error + 'a" where
  "py_index xs i =
     (if 0 \<le> i \<and> i < int (length xs) then Inr (xs ! nat i)
      else if i < 0 \<and> - int (length xs) \<le> i then Inr (xs ! nat (int (length xs) + i))
      else Inl IndexError)"

text \<open>\<open>xs[i] = v\<close> on a list, with the same index rule.\<close>

definition py_store :: "'a list \<Rightarrow> int \<Rightarrow> 'a \<Rightarrow> py_error + 'a list" where
  "py_store xs i v =
     (if 0 \<le> i \<and> i < int (length xs) then Inr (xs[nat i := v])
      else if i < 0 \<and> - int (length xs) \<le> i then Inr (xs[nat (int (length xs) + i) := v])
      else Inl IndexError)"

text \<open>\<open>str.isspace\<close> on one character (code points below 256) and \<open>str.strip()\<close>.\<close>

definition isspace :: "char \<Rightarrow> bool" where
  "isspace c = ((of_char c :: nat) \<in> set [9, 10, 11, 12, 13, 28, 29, 30, 31, 32, 133, 160])"

definition strip :: "string \<Rightarrow> string" where
  "strip s = rev (dropWhile isspace (rev (dropWhile isspace s)))"

text \<open>\<open>str.upper()\<close> and \<open>str.lower()\<close> on ASCII text.\<close>

definition upper_char :: "char \<Rightarrow> char" where
  "upper_char c =
     (if 97 \<le> (of_char c :: nat) \<and> (of_char c :: nat) \<le> 122
      then char_of ((of_char c :: nat) - 32) else c)"

definition lower_char :: "char \<Rightarrow> char" where
  "lower_char c =
     (if 65 \<le> (of_char c :: nat) \<and> (of_char c :: nat) \<le> 90
      then char_of ((of_char c :: nat) + 32) else c)"

definition upper :: "string \<Rightarrow> string" where
  "upper s = map upper_char s"

definition lower :: "string \<Rightarrow> string" where
  "lower s = map lower_char s"

section \<open>Constants of the script\<close>

definition RED_TEXT :: string where
  "RED_TEXT = CHR 0x1B # ''[1;31m''"

definition BLUE_TEXT :: string where
  "BLUE_TEXT = CHR 0x1B # ''[0;34m''"

definition LIGHT_BLUE_TEXT :: string where
  "LIGHT_BLUE_TEXT = CHR 0x1B # ''[1;34m''"

definition CYAN_TEXT :: string where
  "CYAN_TEXT = CHR 0x1B # ''[0;36m''"

definition LIGHT_CYAN_TEXT :: string where
  "LIGHT_CYAN_TEXT = CHR 0x1B # ''[1;36m''"

definition YELLOW_TEXT :: string where
  "YELLOW_TEXT = CHR 0x1B # ''[0;33m''"

definition RESET_TEXT :: string where
  "RESET_TEXT = CHR 0x1B # ''[0m''"

definition LETTER_VALUES :: "char \<rightharpoonup> int" where
  "LETTER_VALUES = map_of
     [(CHR ''A'', 1), (CHR ''B'', 3), (CHR ''C'', 3), (CHR ''D'', 2), (CHR ''E'', 1),
      (CHR ''F'', 4), (CHR ''G'', 2), (CHR ''H'', 4), (CHR ''I'', 1), (CHR ''J'', 8),
      (CHR ''K'', 5), (CHR ''L'', 1), (CHR ''M'', 3), (CHR ''N'', 1), (CHR ''O'', 1),
      (CHR ''P'', 3), (CHR ''Q'', 10), (CHR ''R'', 1), (CHR ''S'', 1), (CHR ''T'', 1),
      (CHR ''U'', 1), (CHR ''V'', 4), (CHR ''W'', 4), (CHR ''X'', 8), (CHR ''Y'', 4),
      (CHR ''Z'', 10)]"

section \<open>Tile and Bag\<close>

text \<open>
  A \<open>Tile\<close> object. The class defines no \<open>__eq__\<close>, so Python compares tiles by
  identity; \<open>oid\<close> stands for the object's identity, so that HOL equality of two tiles
  is Python's \<open>==\<close>. \<open>initialize_bag\<close> creates one object per letter and appends that
  same object \<open>quantity\<close> times; the objects of the \<open>k\<close>-th call carry \<open>oid = k\<close>.
\<close>

record tile =
  letter :: char
  score :: int
  oid :: nat

definition Tile :: "nat \<Rightarrow> char \<Rightarrow> (char \<rightharpoonup> int) \<Rightarrow> tile" where
  "Tile k l letter_values =
     \<lparr>letter = upper_char l,
      score = (case letter_values (upper_char l) of Some v \<Rightarrow> v | None \<Rightarrow> 0),
      oid = k\<rparr>"

text \<open>
  The \<open>Bag\<close> object: its list, and the number of \<open>initialize_bag\<close> calls made so far
  (the tag of the next batch of \<open>Tile\<close> objects).
\<close>

record bag_obj =
  bag :: "tile list"
  fills :: nat

definition add_to_bag :: "tile \<Rightarrow> nat \<Rightarrow> bag_obj \<Rightarrow> bag_obj" where
  "add_to_bag t quantity b = b\<lparr>bag := bag b @ replicate quantity t\<rparr>"

text \<open>The 26 \<open>add_to_bag\<close> calls of \<open>initialize_bag\<close>, in source order.\<close>

definition fill_quantities :: "(char \<times> nat) list" where
  "fill_quantities =
     [(CHR ''A'', 9), (CHR ''B'', 2), (CHR ''C'', 2), (CHR ''D'', 4), (CHR ''E'', 12),
      (CHR ''F'', 2), (CHR ''G'', 3), (CHR ''H'', 2), (CHR ''I'', 9), (CHR ''J'', 9),
      (CHR ''K'', 1), (CHR ''L'', 4), (CHR ''M'', 2), (CHR ''N'', 6), (CHR ''O'', 8),
      (CHR ''P'', 2), (CHR ''Q'', 1), (CHR ''R'', 6), (CHR ''S'', 4), (CHR ''T'', 6),
      (CHR ''U'', 4), (CHR ''V'', 2), (CHR ''W'', 2), (CHR ''X'', 1), (CHR ''Y'', 2),
      (CHR ''Z'', 1)]"

text \<open>
  \<open>random.shuffle\<close> is a parameter \<open>sh\<close> of every function that reaches it: the
  rearrangement it happens to produce.
\<close>

type_synonym shuffle = "tile list \<Rightarrow> tile list"

definition is_shuffle :: "shuffle \<Rightarrow> bool" where
  "is_shuffle sh = (\<forall>xs. mset (sh xs) = mset xs)"

definition initialize_bag :: "shuffle \<Rightarrow> bag_obj \<Rightarrow> bag_obj" where
  "initialize_bag sh b =
     (let b1 = foldl (\<lambda>acc (l, q). add_to_bag (Tile (fills b) l LETTER_VALUES) q acc)
                 b fill_quantities
      in b1\<lparr>bag := sh (bag b1), fills := Suc (fills b)\<rparr>)"

text \<open>\<open>Bag()\<close>: an empty list, then \<open>initialize_bag\<close>.\<close>

definition new_Bag :: "shuffle \<Rightarrow> bag_obj" where
  "new_Bag sh = initialize_bag sh \<lparr>bag = [], fills = 0\<rparr>"

text \<open>\<open>list.pop()\<close> raises \<open>IndexError\<close> on an empty list.\<close>

definition take_from_bag :: "shuffle \<Rightarrow> bag_obj \<Rightarrow> py_error + (tile \<times> bag_obj)" where
  "take_from_bag sh b =
     (let b1 = (if length (bag b) < 10 then initialize_bag sh b else b)
      in if bag b1 = [] then Inl IndexError
         else Inr (last (bag b1), b1\<lparr>bag := butlast (bag b1)\<rparr>))"

definition get_remaining_tiles :: "bag_obj \<Rightarrow> nat" where
  "get_remaining_tiles b = length (bag b)"

text \<open>
  The standard English Scrabble letter distribution (98 letter tiles; the set of 100
  has two blanks, which this program does not have).
\<close>

definition standard_quantities :: "(char \<times> nat) list" where
  "standard_quantities =
     [(CHR ''A'', 9), (CHR ''B'', 2), (CHR ''C'', 2), (CHR ''D'', 4), (CHR ''E'', 12),
      (CHR ''F'', 2), (CHR ''G'', 3), (CHR ''H'', 2), (CHR ''I'', 9), (CHR ''J'', 1),
      (CHR ''K'', 1), (CHR ''L'', 4), (CHR ''M'', 2), (CHR ''N'', 6), (CHR ''O'', 8),
      (CHR ''P'', 2), (CHR ''Q'', 1), (CHR ''R'', 6), (CHR ''S'', 4), (CHR ''T'', 6),
      (CHR ''U'', 4), (CHR ''V'', 2), (CHR ''W'', 2), (CHR ''X'', 1), (CHR ''Y'', 2),
      (CHR ''Z'', 1)]"

text \<open>How many tiles of a letter a tile list holds.\<close>

definition letter_count :: "tile list \<Rightarrow> char \<Rightarrow> nat" where
  "letter_count ts l = length (filter (\<lambda>t. letter t = l) ts)"

section \<open>Rack and Player\<close>

text \<open>
  A \<open>Rack\<close> is its tile list; the \<open>Bag\<close> every rack refers to is the one shared
  object, so the functions that draw take the bag and return it updated.
\<close>

definition add_to_rack :: "shuffle \<Rightarrow> tile list \<Rightarrow> bag_obj \<Rightarrow> py_error + (tile list \<times> bag_obj)" where
  "add_to_rack sh r b =
     (case take_from_bag sh b of
        Inl e \<Rightarrow> Inl e
      | Inr (t, b1) \<Rightarrow> Inr (r @ [t], b1))"

text \<open>\<open>Rack.initialize\<close>: \<open>for i in range(7): self.add_to_rack()\<close>.\<close>

fun initialize :: "shuffle \<Rightarrow> nat \<Rightarrow> tile list \<Rightarrow> bag_obj \<Rightarrow> py_error + (tile list \<times> bag_obj)" where
  "initialize sh 0 r b = Inr (r, b)"
| "initialize sh (Suc n) r b =
     (case add_to_rack sh r b of
        Inl e \<Rightarrow> Inl e
      | Inr (r1, b1) \<Rightarrow> initialize sh n r1 b1)"

definition new_Rack :: "shuffle \<Rightarrow> bag_obj \<Rightarrow> py_error + (tile list \<times> bag_obj)" where
  "new_Rack sh b = initialize sh 7 [] b"

text \<open>\<open>list.remove(x)\<close> deletes the first element equal to \<open>x\<close> and raises
  \<open>ValueError\<close> when there is none.\<close>

definition remove_from_rack :: "tile \<Rightarrow> tile list \<Rightarrow> py_error + tile list" where
  "remove_from_rack t r = (if t \<in> set r then Inr (remove1 t r) else Inl ValueError)"

definition get_rack_length :: "tile list \<Rightarrow> nat" where
  "get_rack_length r = length r"

function replenish_rack :: "shuffle \<Rightarrow> tile list \<Rightarrow> bag_obj \<Rightarrow> py_error + (tile list \<times> bag_obj)" where
  "replenish_rack sh r b =
     (if get_rack_length r < 7 \<and> 0 < get_remaining_tiles b
      then (case add_to_rack sh r b of
              Inl e \<Rightarrow> Inl e
            | Inr (r1, b1) \<Rightarrow> replenish_rack sh r1 b1)
      else Inr (r, b))"
  by pat_completeness auto
termination
  by (relation "measure (\<lambda>(sh, r, b). 7 - length r)")
     (auto simp: add_to_rack_def get_rack_length_def split: sum.splits prod.splits)

declare replenish_rack.simps [simp del]

text \<open>\<open>str.join\<close>, and \<open>Rack.get_rack_str\<close>.\<close>

fun join :: "string \<Rightarrow> string list \<Rightarrow> string" where
  "join sep [] = []"
| "join sep [x] = x"
| "join sep (x # y # ys) = x @ sep @ join sep (y # ys)"

definition get_rack_str :: "tile list \<Rightarrow> string" where
  "get_rack_str r = join '', '' (map (\<lambda>item. YELLOW_TEXT @ [letter item] @ RESET_TEXT) r)"

record player =
  name :: string
  rack :: "tile list"
  score :: int

section \<open>Board\<close>

type_synonym board = "string list list"

definition TRIPLE_WORD_SCORE :: "(nat \<times> nat) list" where
  "TRIPLE_WORD_SCORE = [(0,0), (7,0), (14,0), (0,7), (14,7), (0,14), (7,14), (14,14)]"

definition DOUBLE_WORD_SCORE :: "(nat \<times> nat) list" where
  "DOUBLE_WORD_SCORE =
     [(1,1), (2,2), (3,3), (4,4), (1,13), (2,12), (3,11), (4,10),
      (13,1), (12,2), (11,3), (10,4), (13,13), (12,12), (11,11), (10,10)]"

definition TRIPLE_LETTER_SCORE :: "(nat \<times> nat) list" where
  "TRIPLE_LETTER_SCORE =
     [(1,5), (1,9), (5,1), (5,5), (5,9), (5,13), (9,1), (9,5), (9,9), (9,13), (13,5), (13,9)]"

definition DOUBLE_LETTER_SCORE :: "(nat \<times> nat) list" where
  "DOUBLE_LETTER_SCORE =
     [(0,3), (0,11), (2,6), (2,8), (3,0), (3,7), (3,14), (6,2), (6,6), (6,8), (6,12), (7,3),
      (7,11), (8,2), (8,6), (8,8), (8,12), (11,0), (11,7), (11,14), (12,6), (12,8), (14,3),
      (14,11)]"

text \<open>The texts a cell can hold, as the script builds them.\<close>

definition EMPTY :: string where
  "EMPTY = ''   ''"

definition TWS :: string where
  "TWS = LIGHT_BLUE_TEXT @ ''TWS'' @ RESET_TEXT"

definition TLS :: string where
  "TLS = BLUE_TEXT @ ''TLS'' @ RESET_TEXT"

definition DWS :: string where
  "DWS = LIGHT_CYAN_TEXT @ ''DWS'' @ RESET_TEXT"

definition DLS :: string where
  "DLS = CYAN_TEXT @ ''DLS'' @ RESET_TEXT"

definition CENTER :: string where
  "CENTER = RED_TEXT @ '' * '' @ RESET_TEXT"

definition letter_cell :: "char \<Rightarrow> string" where
  "letter_cell c = '' '' @ RED_TEXT @ [c] @ RESET_TEXT @ '' ''"

text \<open>\<open>self.board[r][c] = v\<close> at a constant coordinate of the grid.\<close>

definition put :: "board \<Rightarrow> nat \<times> nat \<Rightarrow> string \<Rightarrow> board" where
  "put b coordinate v = b[fst coordinate := (b ! fst coordinate)[snd coordinate := v]]"

definition add_premium_squares :: "board \<Rightarrow> board" where
  "add_premium_squares b =
     (let b1 = foldl (\<lambda>acc coordinate. put acc coordinate TWS) b TRIPLE_WORD_SCORE;
          b2 = foldl (\<lambda>acc coordinate. put acc coordinate TLS) b1 TRIPLE_LETTER_SCORE;
          b3 = foldl (\<lambda>acc coordinate. put acc coordinate DWS) b2 DOUBLE_WORD_SCORE
      in foldl (\<lambda>acc coordinate. put acc coordinate DLS) b3 DOUBLE_LETTER_SCORE)"

definition new_Board :: board where
  "new_Board = put (add_premium_squares (replicate 15 (replicate 15 EMPTY))) (7, 7) CENTER"

text \<open>\<open>self.board[r][c]\<close> read and written with Python's index rule.\<close>

definition cell_at :: "board \<Rightarrow> int \<Rightarrow> int \<Rightarrow> py_error + string" where
  "cell_at b r c = (case py_index b r of Inl e \<Rightarrow> Inl e | Inr row \<Rightarrow> py_index row c)"

definition set_cell :: "board \<Rightarrow> int \<Rightarrow> int \<Rightarrow> string \<Rightarrow> py_error + board" where
  "set_cell b r c v =
     (case py_index b r of
        Inl e \<Rightarrow> Inl e
      | Inr row \<Rightarrow>
          (case py_store row c v of
             Inl e \<Rightarrow> Inl e
           | Inr row1 \<Rightarrow> py_store b r row1))"

section \<open>The game state\<close>

text \<open>
  The module's globals (\<open>players\<close>, \<open>round_number\<close>, \<open>skipped_turns\<close>,
  \<open>premium_spots\<close>, \<open>dictionary\<close>) and the objects \<open>start_game\<close> creates (the board
  array, the bag). \<open>dictionary = None\<close> means the global is not bound yet; \<open>dic_txt\<close>
  is the file dic.txt as the program finds it: its lines, or \<open>None\<close> when it cannot be
  opened. A \<open>Player\<close> reference is the player's position in \<open>players\<close>.
\<close>

record game =
  board :: board
  tile_bag :: bag_obj
  players :: "player list"
  round_number :: int
  skipped_turns :: int
  premium_spots :: "(char \<times> string) list"
  dictionary :: "string list option"
  dic_txt :: "string list option"

section \<open>Board.place_word\<close>

text \<open>
  The loop of the \<open>right\<close> branch over \<open>i\<close>: read the cell, record it when it is not
  three spaces, overwrite it.
\<close>

fun place_right :: "string \<Rightarrow> int \<times> int \<Rightarrow> nat list \<Rightarrow> board \<Rightarrow> (char \<times> string) list
    \<Rightarrow> py_error + (board \<times> (char \<times> string) list)" where
  "place_right w loc [] b spots = Inr (b, spots)"
| "place_right w loc (i # is) b spots =
     (case cell_at b (fst loc) (snd loc + int i) of
        Inl e \<Rightarrow> Inl e
      | Inr old \<Rightarrow>
          (case set_cell b (fst loc) (snd loc + int i) (letter_cell (w ! i)) of
             Inl e \<Rightarrow> Inl e
           | Inr b1 \<Rightarrow>
               place_right w loc is b1
                 (if old \<noteq> ''   '' then spots @ [(w ! i, old)] else spots)))"

text \<open>
  The loop of the \<open>down\<close> branch: it reads \<open>board[location[0]][location[1]+i]\<close> and
  writes \<open>board[location[0]+i][location[1]]\<close>, as the source does.
\<close>

fun place_down :: "string \<Rightarrow> int \<times> int \<Rightarrow> nat list \<Rightarrow> board \<Rightarrow> (char \<times> string) list
    \<Rightarrow> py_error + (board \<times> (char \<times> string) list)" where
  "place_down w loc [] b spots = Inr (b, spots)"
| "place_down w loc (i # is) b spots =
     (case cell_at b (fst loc) (snd loc + int i) of
        Inl e \<Rightarrow> Inl e
      | Inr old \<Rightarrow>
          (case set_cell b (fst loc + int i) (snd loc) (letter_cell (w ! i)) of
             Inl e \<Rightarrow> Inl e
           | Inr b1 \<Rightarrow>
               place_down w loc is b1
                 (if old \<noteq> ''   '' then spots @ [(w ! i, old)] else spots)))"

text \<open>
  \<open>for tile in player.get_rack_arr(): if tile.get_letter() == letter: remove(tile)\<close>.
  Python's list iterator holds an index \<open>i\<close> into the list being changed: it stops when
  \<open>i\<close> reaches the current length and moves on by one after every element, also after
  a removal.
\<close>

function remove_pass :: "char \<Rightarrow> nat \<Rightarrow> tile list \<Rightarrow> py_error + tile list" where
  "remove_pass l i r =
     (if i < length r
      then (if letter (r ! i) = l
            then (case remove_from_rack (r ! i) r of
                    Inl e \<Rightarrow> Inl e
                  | Inr r1 \<Rightarrow> remove_pass l (Suc i) r1)
            else remove_pass l (Suc i) r)
      else Inr r)"
  by pat_completeness auto
termination
  by (relation "measure (\<lambda>(l, i, r). length r - i)")
     (auto simp: remove_from_rack_def length_remove1 split: if_splits)

declare remove_pass.simps [simp del]

text \<open>\<open>for letter in word:\<close> around that pass.\<close>

fun remove_used :: "string \<Rightarrow> tile list \<Rightarrow> py_error + tile list" where
  "remove_used [] r = Inr r"
| "remove_used (l # ls) r =
     (case remove_pass l 0 r of
        Inl e \<Rightarrow> Inl e
      | Inr r1 \<Rightarrow> remove_used ls r1)"

definition place_word :: "shuffle \<Rightarrow> string \<Rightarrow> int \<times> int \<Rightarrow> string \<Rightarrow> nat \<Rightarrow> game \<Rightarrow> py_error + game" where
  "place_word sh word0 loc direction0 p g =
     (let direction1 = lower direction0; w = upper word0 in
      case (if lower direction1 = ''right'' then place_right w loc [0..<length w] (board g) []
            else if lower direction1 = ''down'' then place_down w loc [0..<length w] (board g) []
            else Inr (board g, [])) of
        Inl e \<Rightarrow> Inl e
      | Inr (b1, spots) \<Rightarrow>
          (case remove_used w (rack (players g ! p)) of
             Inl e \<Rightarrow> Inl e
           | Inr r1 \<Rightarrow>
               (case replenish_rack sh r1 (tile_bag g) of
                  Inl e \<Rightarrow> Inl e
                | Inr (r2, bag2) \<Rightarrow>
                    Inr (g\<lparr>board := b1, premium_spots := spots, tile_bag := bag2,
                           players := (players g)[p := (players g ! p)\<lparr>rack := r2\<rparr>]\<rparr>))))"

section \<open>Word: validation\<close>

text \<open>
  A \<open>Word\<close> object. Its \<open>board\<close> attribute is a reference to the one board array,
  read from the game state. The constructor upper-cases the word and lower-cases the
  direction; \<open>set_word\<close> upper-cases, \<open>set_direction\<close> stores the text as given.
\<close>

record word_obj =
  word :: string
  location :: "int \<times> int"
  player :: nat
  direction :: string

definition new_Word :: "string \<Rightarrow> int \<times> int \<Rightarrow> nat \<Rightarrow> string \<Rightarrow> word_obj" where
  "new_Word w loc p d = \<lparr>word = upper w, location = loc, player = p, direction = lower d\<rparr>"

definition set_word :: "string \<Rightarrow> word_obj \<Rightarrow> word_obj" where
  "set_word w wo = wo\<lparr>word := upper w\<rparr>"

definition set_location :: "int \<times> int \<Rightarrow> word_obj \<Rightarrow> word_obj" where
  "set_location loc wo = wo\<lparr>location := loc\<rparr>"

definition set_direction :: "string \<Rightarrow> word_obj \<Rightarrow> word_obj" where
  "set_direction d wo = wo\<lparr>direction := d\<rparr>"

text \<open>What \<open>check_word\<close> returns: \<open>True\<close>, a message, or \<open>None\<close> (no \<open>return\<close> reached).\<close>

datatype verdict = Valid | Message string | NoVerdict

definition MSG_DIRECTION :: string where
  "MSG_DIRECTION = ''Error: Please enter a valid direction (right or down).''"

definition MSG_DICTIONARY :: string where
  "MSG_DICTIONARY = ''Please enter a valid dictionary word.'' @ [CHR 0x0A]"

definition MSG_CONNECT :: string where
  "MSG_CONNECT = ''The word must connect to an existing letter on the board.''"

definition MSG_TILES :: "string \<Rightarrow> string" where
  "MSG_TILES w = ''You do not have the necessary tiles to play the word ''
                   @ [CHR 0x27] @ w @ [CHR 0x27] @ ''.''"

definition MSG_BOUNDS :: string where
  "MSG_BOUNDS = ''The word placement is out of bounds.''"

definition MSG_CENTER :: string where
  "MSG_CENTER = ''The first word must begin at the center of the board (7, 7).''"

text \<open>The cells the two scanning loops index, for \<open>i in range(n)\<close>.\<close>

definition cells_right :: "int \<times> int \<Rightarrow> nat \<Rightarrow> (int \<times> int) list" where
  "cells_right loc n = map (\<lambda>i. (fst loc, snd loc + int i)) [0..<n]"

definition cells_down :: "int \<times> int \<Rightarrow> nat \<Rightarrow> (int \<times> int) list" where
  "cells_down loc n = map (\<lambda>i. (fst loc + int i, snd loc)) [0..<n]"

text \<open>One round of the first loop's body: what is appended to \<open>current_board_ltr\<close>.\<close>

definition board_letter :: "string \<Rightarrow> py_error + string" where
  "board_letter board_tile =
     (if strip board_tile \<in> set [[], ''TWS'', ''DWS'', ''TLS'', ''DLS'', ''*'']
      then Inr '' ''
      else (case py_index (strip board_tile) 1 of
              Inl e \<Rightarrow> Inl e
            | Inr c \<Rightarrow> Inr [c]))"

fun scan_cells :: "board \<Rightarrow> (int \<times> int) list \<Rightarrow> string \<Rightarrow> py_error + string" where
  "scan_cells b [] current_board_ltr = Inr current_board_ltr"
| "scan_cells b (rc # rest) current_board_ltr =
     (case cell_at b (fst rc) (snd rc) of
        Inl e \<Rightarrow> Inl e
      | Inr board_tile \<Rightarrow>
          (case board_letter board_tile of
             Inl e \<Rightarrow> Inl e
           | Inr s \<Rightarrow> scan_cells b rest (current_board_ltr @ s)))"

text \<open>The second pair of loops only evaluates \<open>self.board[..][..]\<close> for every \<open>i\<close>.\<close>

fun touch_cells :: "board \<Rightarrow> (int \<times> int) list \<Rightarrow> py_error + unit" where
  "touch_cells b [] = Inr ()"
| "touch_cells b (rc # rest) =
     (case cell_at b (fst rc) (snd rc) of
        Inl e \<Rightarrow> Inl e
      | Inr board_tile \<Rightarrow> touch_cells b rest)"

text \<open>
  \<open>for letter in needed_tiles: if rack_str.count(letter) < needed_tiles.count(letter)\<close>:
  whether the loop reaches its \<open>return\<close>.
\<close>

definition lacks_tiles :: "string \<Rightarrow> string \<Rightarrow> bool" where
  "lacks_tiles needed_tiles rack_str =
     list_ex (\<lambda>l. count_list rack_str l < count_list needed_tiles l) needed_tiles"

text \<open>The bounds test of lines 379 to 384.\<close>

definition off_board :: "word_obj \<Rightarrow> bool" where
  "off_board wo =
     (fst (location wo) < 0
      \<or> snd (location wo) < 0
      \<or> (direction wo = ''right'' \<and> snd (location wo) + int (length (word wo)) > 15)
      \<or> (direction wo = ''down'' \<and> fst (location wo) + int (length (word wo)) > 15))"

text \<open>
  The body of \<open>check_word\<close> once \<open>dictionary\<close> is bound to \<open>dict\<close>; it reads the state
  and changes nothing.
\<close>

definition check_placement :: "word_obj \<Rightarrow> string list \<Rightarrow> game \<Rightarrow> py_error + verdict" where
  "check_placement wo dict g =
     (let needed_tiles = [] in
      if word wo = [] then Inr NoVerdict
      else
        (case (if direction wo = ''right''
               then Some (cells_right (location wo) (length (word wo)))
               else if direction wo = ''down''
               then Some (cells_down (location wo) (length (word wo)))
               else None) of
           None \<Rightarrow> Inr (Message MSG_DIRECTION)
         | Some cells \<Rightarrow>
             (case scan_cells (board g) cells [] of
                Inl e \<Rightarrow> Inl e
              | Inr current_board_ltr \<Rightarrow>
                  if word wo \<notin> set dict then Inr (Message MSG_DICTIONARY)
                  else
                    (case touch_cells (board g) cells of
                       Inl e \<Rightarrow> Inl e
                     | Inr u \<Rightarrow>
                         if round_number g > 1
                            \<and> current_board_ltr = replicate (length (word wo)) CHR '' ''
                         then Inr (Message MSG_CONNECT)
                         else if lacks_tiles needed_tiles
                                   (get_rack_str (rack (players g ! player wo)))
                         then Inr (Message (MSG_TILES (word wo)))
                         else if off_board wo then Inr (Message MSG_BOUNDS)
                         else if round_number g = 1
                         then (if players g = [] then Inl IndexError
                               else if player wo = 0 \<and> location wo \<noteq> (7, 7)
                               then Inr (Message MSG_CENTER)
                               else Inr Valid)
                         else Inr Valid))))"

text \<open>
  \<open>check_word\<close>: bind the global \<open>dictionary\<close> from dic.txt when it is not bound yet,
  then validate. The result is what the call returns or raises, and the state after it.
\<close>

definition check_word :: "word_obj \<Rightarrow> game \<Rightarrow> (py_error + verdict) \<times> game" where
  "check_word wo g =
     (case dictionary g of
        Some dict \<Rightarrow> (check_placement wo dict g, g)
      | None \<Rightarrow>
          (case dic_txt g of
             None \<Rightarrow> (Inl FileNotFoundError, g)
           | Some ls \<Rightarrow>
               (check_placement wo ls (g\<lparr>dictionary := Some ls\<rparr>),
                g\<lparr>dictionary := Some ls\<rparr>)))"

section \<open>Word: scoring\<close>

text \<open>The inner loop over \<open>premium_spots\<close> for one letter of the word.\<close>

fun letter_bonus :: "char \<Rightarrow> (char \<times> string) list \<Rightarrow> int \<Rightarrow> py_error + int" where
  "letter_bonus l [] word_score = Inr word_score"
| "letter_bonus l (spot # spots) word_score =
     (if l = fst spot
      then (if snd spot = ''TLS''
            then (case LETTER_VALUES l of
                    None \<Rightarrow> Inl KeyError
                  | Some v \<Rightarrow> letter_bonus l spots (word_score + v * 2))
            else if snd spot = ''DLS''
            then (case LETTER_VALUES l of
                    None \<Rightarrow> Inl KeyError
                  | Some v \<Rightarrow> letter_bonus l spots (word_score + v))
            else letter_bonus l spots word_score)
      else letter_bonus l spots word_score)"

fun letter_scores :: "string \<Rightarrow> (char \<times> string) list \<Rightarrow> int \<Rightarrow> py_error + int" where
  "letter_scores [] spots word_score = Inr word_score"
| "letter_scores (l # ls) spots word_score =
     (case letter_bonus l spots word_score of
        Inl e \<Rightarrow> Inl e
      | Inr s1 \<Rightarrow>
          (case LETTER_VALUES l of
             None \<Rightarrow> Inl KeyError
           | Some v \<Rightarrow> letter_scores ls spots (s1 + v)))"

fun word_multipliers :: "(char \<times> string) list \<Rightarrow> int \<Rightarrow> int" where
  "word_multipliers [] word_score = word_score"
| "word_multipliers (spot # spots) word_score =
     (if snd spot = ''TWS'' then word_multipliers spots (word_score * 3)
      else if snd spot = ''DWS'' then word_multipliers spots (word_score * 2)
      else word_multipliers spots word_score)"

text \<open>The value handed to \<open>increase_score\<close>.\<close>

definition word_score_of :: "string \<Rightarrow> (char \<times> string) list \<Rightarrow> py_error + int" where
  "word_score_of w spots =
     (case letter_scores w spots 0 of
        Inl e \<Rightarrow> Inl e
      | Inr s \<Rightarrow> Inr (word_multipliers spots s))"

definition increase_score :: "int \<Rightarrow> player \<Rightarrow> player" where
  "increase_score increase pl = pl\<lparr>score := score pl + increase\<rparr>"

definition calculate_word_score :: "word_obj \<Rightarrow> game \<Rightarrow> py_error + game" where
  "calculate_word_score wo g =
     (case word_score_of (word wo) (premium_spots g) of
        Inl e \<Rightarrow> Inl e
      | Inr s \<Rightarrow>
          Inr (g\<lparr>players := (players g)[player wo :=
                              increase_score s (players g ! player wo)]\<rparr>))"

section \<open>turn and end_game\<close>

text \<open>
  The test at the top of \<open>turn\<close> (line 453): its \<open>if\<close> branch plays the turn, its
  \<open>else\<close> branch calls \<open>end_game\<close>.
\<close>

datatype turn_entry = PlayTurn | EndGame

definition turn_entry :: "nat \<Rightarrow> game \<Rightarrow> turn_entry" where
  "turn_entry p g =
     (if skipped_turns g < 6
         \<or> (get_rack_length (rack (players g ! p)) = 0
            \<and> get_remaining_tiles (tile_bag g) = 0)
      then PlayTurn else EndGame)"

text \<open>
  Lines 553 to 556 of \<open>turn\<close>, reached when \<open>check_word\<close> has returned \<open>True\<close>: apply
  the placement, score it, reset the skip counter.
\<close>

definition play_word :: "shuffle \<Rightarrow> string \<Rightarrow> int \<times> int \<Rightarrow> string \<Rightarrow> word_obj \<Rightarrow> nat \<Rightarrow> game
    \<Rightarrow> py_error + game" where
  "play_word sh word_to_play loc dir wo p g =
     (case place_word sh word_to_play loc dir p g of
        Inl e \<Rightarrow> Inl e
      | Inr g1 \<Rightarrow>
          (case calculate_word_score wo g1 of
             Inl e \<Rightarrow> Inl e
           | Inr g2 \<Rightarrow> Inr (g2\<lparr>skipped_turns := 0\<rparr>)))"

text \<open>
  \<open>end_game\<close> compares \<open>player.get_score\<close>, the bound method, with \<open>highest_score\<close>.
  Python 3 orders two integers and raises \<open>TypeError\<close> for a method and an integer.
\<close>

datatype py_value = IntValue int | BoundMethod string

definition py_gt :: "py_value \<Rightarrow> py_value \<Rightarrow> py_error + bool" where
  "py_gt a b =
     (case a of
        IntValue x \<Rightarrow> (case b of IntValue y \<Rightarrow> Inr (y < x) | BoundMethod m \<Rightarrow> Inl TypeError)
      | BoundMethod m \<Rightarrow> Inl TypeError)"

fun winner_loop :: "player list \<Rightarrow> int \<Rightarrow> string \<Rightarrow> py_error + string" where
  "winner_loop [] highest_score winning_player = Inr winning_player"
| "winner_loop (pl # pls) highest_score winning_player =
     (case py_gt (BoundMethod ''get_score'') (IntValue highest_score) of
        Inl e \<Rightarrow> Inl e
      | Inr is_greater \<Rightarrow>
          if is_greater then winner_loop pls (score pl) (name pl)
          else winner_loop pls highest_score winning_player)"

text \<open>The name \<open>end_game\<close> announces as the winner.\<close>

definition end_game :: "game \<Rightarrow> py_error + string" where
  "end_game g = winner_loop (players g) 0 []"

section \<open>start_game and the turn order\<close>

text \<open>
  \<open>start_game\<close> with the names typed in (two to four of them): a new board, a new
  bag, one player per name with a rack of seven drawn tiles. \<open>premium_spots\<close> is bound
  by \<open>place_word\<close> before anything reads it.
\<close>

fun add_players :: "shuffle \<Rightarrow> string list \<Rightarrow> player list \<Rightarrow> bag_obj
    \<Rightarrow> py_error + (player list \<times> bag_obj)" where
  "add_players sh [] pls b = Inr (pls, b)"
| "add_players sh (n # ns) pls b =
     (case new_Rack sh b of
        Inl e \<Rightarrow> Inl e
      | Inr (r, b1) \<Rightarrow> add_players sh ns (pls @ [\<lparr>name = n, rack = r, score = 0\<rparr>]) b1)"

definition start_game :: "shuffle \<Rightarrow> string list \<Rightarrow> string list option \<Rightarrow> py_error + game" where
  "start_game sh names file =
     (case add_players sh names [] (new_Bag sh) of
        Inl e \<Rightarrow> Inl e
      | Inr (pls, b) \<Rightarrow>
          Inr \<lparr>board = new_Board, tile_bag = b, players = pls, round_number = 1,
               skipped_turns = 0, premium_spots = [], dictionary = None, dic_txt = file\<rparr>)"

text \<open>
  The hand-over at the end of a turn (lines 494 to 498 and 562 to 566): the next player
  in list order, and a new round after the last one.
\<close>

definition next_player :: "nat \<Rightarrow> game \<Rightarrow> nat \<times> game" where
  "next_player p g =
     (if int p \<noteq> int (length (players g)) - 1 then (p + 1, g)
      else (0, g\<lparr>round_number := round_number g + 1\<rparr>))"

text \<open>Menu entry 4 confirmed with \<open>y\<close>: count the skip, hand over.\<close>

definition skip_turn :: "nat \<Rightarrow> game \<Rightarrow> nat \<times> game" where
  "skip_turn p g = next_player p (g\<lparr>skipped_turns := skipped_turns g + 1\<rparr>)"

section \<open>Example states\<close>

text \<open>
  A game of two players, ann and bob, as \<open>start_game\<close> sets it up when the shuffle
  leaves the list as it is and dic.txt holds the words AT and CAT.
\<close>

definition example_game :: game where
  "example_game = projr (start_game (\<lambda>xs. xs) [''ann'', ''bob''] (Some [''AT'', ''CAT'']))"

text \<open>The same game after ann has skipped her first turn: bob is to play in round 1.\<close>

definition after_one_skip :: game where
  "after_one_skip = snd (skip_turn 0 example_game)"

text \<open>After bob has skipped as well: round 2, ann is to play, the board is untouched.\<close>

definition after_two_skips :: game where
  "after_two_skips = snd (skip_turn 1 after_one_skip)"

text \<open>
  The new board with the two cells (7,7) and (7,8) overwritten by two marker texts: a
  board on which a two-letter word covers two premium cells.
\<close>

definition premium_pair_board :: "string \<Rightarrow> string \<Rightarrow> board" where
  "premium_pair_board m1 m2 = put (put new_Board (7, 7) m1) (7, 8) m2"

text \<open>A board array of 15 rows of 15 cells, as \<open>Board()\<close> creates it.\<close>

definition grid15 :: "board \<Rightarrow> bool" where
  "grid15 b = (length b = 15 \<and> list_all (\<lambda>row. length row = 15) b)"

text \<open>A rack holding tiles of the first fill with the given letters, in order.\<close>

definition rack_of_letters :: "string \<Rightarrow> tile list" where
  "rack_of_letters ls = map (\<lambda>l. Tile 0 l LETTER_VALUES) ls"

text \<open>The example game with ann holding the given rack.\<close>

definition game_with_rack :: "string \<Rightarrow> game" where
  "game_with_rack ls =
     example_game\<lparr>players := (players example_game)
                     [0 := (players example_game ! 0)\<lparr>rack := rack_of_letters ls\<rparr>]\<rparr>"

section \<open>The order of the checks, stated apart from the code\<close>

text \<open>The word list \<open>check_word\<close> consults: the global when bound, else the file.\<close>

definition lexicon :: "game \<Rightarrow> string list" where
  "lexicon g =
     (case dictionary g of
        Some dict \<Rightarrow> dict
      | None \<Rightarrow> (case dic_txt g of Some ls \<Rightarrow> ls | None \<Rightarrow> []))"

text \<open>The cells a placement covers.\<close>

definition covered_cells :: "word_obj \<Rightarrow> (int \<times> int) list" where
  "covered_cells wo =
     (if direction wo = ''right'' then cells_right (location wo) (length (word wo))
      else cells_down (location wo) (length (word wo)))"

text \<open>
  A cell that the scan reads as a space: its stripped text is empty or a bare marker
  word, or the second character of its stripped text is a space.
\<close>

definition reads_blank :: "board \<Rightarrow> int \<times> int \<Rightarrow> bool" where
  "reads_blank b rc =
     (case cell_at b (fst rc) (snd rc) of
        Inl e \<Rightarrow> False
      | Inr board_tile \<Rightarrow> board_letter board_tile = Inr '' '')"

text \<open>Every covered cell reads as a space.\<close>

definition touches_nothing :: "word_obj \<Rightarrow> game \<Rightarrow> bool" where
  "touches_nothing wo g = list_all (reads_blank (board g)) (covered_cells wo)"

text \<open>
  The verdict as a list of reasons tried in a fixed order: no verdict for the empty word,
  then direction, lexicon, connection, bounds, centre.
\<close>

definition verdict_in_order :: "word_obj \<Rightarrow> game \<Rightarrow> verdict" where
  "verdict_in_order wo g =
     (if word wo = [] then NoVerdict
      else if direction wo \<noteq> ''right'' \<and> direction wo \<noteq> ''down'' then Message MSG_DIRECTION
      else if word wo \<notin> set (lexicon g) then Message MSG_DICTIONARY
      else if round_number g > 1 \<and> touches_nothing wo g then Message MSG_CONNECT
      else if off_board wo then Message MSG_BOUNDS
      else if round_number g = 1 \<and> player wo = 0 \<and> location wo \<noteq> (7, 7)
      then Message MSG_CENTER
      else Valid)"

section \<open>Facts about the bag\<close>

lemma length_foldl_add_to_bag:
  "length (bag (foldl (\<lambda>acc (l, q). add_to_bag (Tile k l lv) q acc) b qs))
     = length (bag b) + sum_list (map snd qs)"
  by (induction qs arbitrary: b) (auto simp: add_to_bag_def)

lemma letter_count_foldl_add_to_bag:
  "letter_count (bag (foldl (\<lambda>acc (l, q). add_to_bag (Tile k l lv) q acc) b qs)) c
     = letter_count (bag b) c
       + sum_list (map snd (filter (\<lambda>(l, q). upper_char l = c) qs))"
  by (induction qs arbitrary: b) (auto simp: add_to_bag_def letter_count_def Tile_def)

lemma is_shuffle_length: "is_shuffle sh \<Longrightarrow> length (sh xs) = length xs"
  unfolding is_shuffle_def by (metis size_mset)

lemma is_shuffle_letter_count: "is_shuffle sh \<Longrightarrow> letter_count (sh xs) c = letter_count xs c"
proof -
  assume "is_shuffle sh"
  then have "mset (filter (\<lambda>t. letter t = c) (sh xs)) = mset (filter (\<lambda>t. letter t = c) xs)"
    by (simp add: is_shuffle_def)
  then show ?thesis
    unfolding letter_count_def by (metis size_mset)
qed

lemma is_shuffle_same: "is_shuffle (\<lambda>xs. xs)"
  by (simp add: is_shuffle_def)

lemma fill_total: "sum_list (map snd fill_quantities) = 106"
  by (simp add: fill_quantities_def)

lemma fill_J:
  "sum_list (map snd (filter (\<lambda>(l, q). upper_char l = CHR ''J'') fill_quantities)) = 9"
  by (simp add: fill_quantities_def upper_char_def)

lemma length_initialize_bag:
  "is_shuffle sh \<Longrightarrow> length (bag (initialize_bag sh b)) = length (bag b) + 106"
  by (simp add: initialize_bag_def Let_def is_shuffle_length length_foldl_add_to_bag fill_total)

lemma letter_count_J_initialize_bag:
  "is_shuffle sh \<Longrightarrow>
     letter_count (bag (initialize_bag sh b)) CHR ''J'' = letter_count (bag b) CHR ''J'' + 9"
  by (simp add: initialize_bag_def Let_def is_shuffle_letter_count
        letter_count_foldl_add_to_bag fill_J)

text \<open>A draw that refills: the batch is appended to what was left, then one tile goes.\<close>

lemma take_from_bag_refill:
  assumes "is_shuffle sh" and "length (bag b) < 10"
  shows "\<exists>t b1. take_from_bag sh b = Inr (t, b1) \<and> length (bag b1) = length (bag b) + 105"
proof -
  have "length (bag (initialize_bag sh b)) = length (bag b) + 106"
    using assms(1) by (rule length_initialize_bag)
  then show ?thesis
    using assms(2) by (auto simp: take_from_bag_def Let_def)
qed

lemma take_from_bag_plain:
  assumes "10 \<le> length (bag b)"
  shows "\<exists>t b1. take_from_bag sh b = Inr (t, b1) \<and> length (bag b1) = length (bag b) - 1"
  using assms by (auto simp: take_from_bag_def Let_def)

text \<open>
  C7, evaluated on the code. Whatever rearrangement the shuffle produces, the bag that
  \<open>Bag()\<close> builds holds 106 tiles, nine of them J (the standard distribution has one J),
  and a draw from a bag of nine tiles refills it to 115 and leaves 114: a fill does not
  leave the 100-tile standard set, and the bag after a refilling draw does not hold 99.
\<close>

theorem bag_fill_counts:
  assumes "is_shuffle sh"
  shows "length (bag (new_Bag sh)) = 106
       \<and> letter_count (bag (new_Bag sh)) CHR ''J'' = 9
       \<and> map_of standard_quantities CHR ''J'' = Some 1
       \<and> (\<exists>t b1. take_from_bag sh \<lparr>bag = replicate 9 x, fills = k\<rparr> = Inr (t, b1)
                  \<and> length (bag b1) = 114)"
proof -
  have a: "length (bag (new_Bag sh)) = 106"
    using assms by (simp add: new_Bag_def length_initialize_bag)
  have "letter_count [] CHR ''J'' = 0"
    by (simp add: letter_count_def)
  then have b: "letter_count (bag (new_Bag sh)) CHR ''J'' = 9"
    using assms by (simp add: new_Bag_def letter_count_J_initialize_bag)
  have c: "map_of standard_quantities CHR ''J'' = Some 1"
    by (simp add: standard_quantities_def)
  have d: "\<exists>t b1. take_from_bag sh \<lparr>bag = replicate 9 x, fills = k\<rparr> = Inr (t, b1)
                  \<and> length (bag b1) = 114"
    using take_from_bag_refill [OF assms, of "\<lparr>bag = replicate 9 x, fills = k\<rparr>"] by simp
  from a b c d show ?thesis by blast
qed

theorem bag_fill_counts_witness:
  "is_shuffle (\<lambda>xs. xs) \<and> length (bag (new_Bag (\<lambda>xs. xs))) = 106
     \<and> letter_count (bag (new_Bag (\<lambda>xs. xs))) CHR ''J'' = 9"
  using bag_fill_counts [OF is_shuffle_same] is_shuffle_same by simp

section \<open>Facts about turn and end_game\<close>

text \<open>
  The \<open>else\<close> branch of \<open>turn\<close> is taken exactly when six skips are counted and the
  rack or the bag still holds a tile.
\<close>

lemma turn_entry_EndGame_iff:
  "turn_entry p g = EndGame \<longleftrightarrow>
     6 \<le> skipped_turns g \<and> (rack (players g ! p) \<noteq> [] \<or> bag (tile_bag g) \<noteq> [])"
  by (auto simp: turn_entry_def get_rack_length_def get_remaining_tiles_def)

text \<open>
  C4, evaluated on the code. With an empty rack and an empty bag the test of line 453
  takes the branch that plays the turn, whatever the skip counter is (also at 6 and
  above): \<open>end_game\<close> is not called.
\<close>

theorem turn_entry_empty_rack_empty_bag:
  "turn_entry 0 (g\<lparr>skipped_turns := n, players := [pl\<lparr>rack := []\<rparr>],
                   tile_bag := b\<lparr>bag := []\<rparr>\<rparr>) = PlayTurn"
  by (simp add: turn_entry_def get_rack_length_def get_remaining_tiles_def)

text \<open>
  C5, evaluated on the code. With at least one player, \<open>end_game\<close> raises \<open>TypeError\<close>
  at the first comparison and announces no winner, whatever the scores are.
\<close>

theorem end_game_raises:
  "end_game (g\<lparr>players := pl # pls\<rparr>) = Inl TypeError"
  by (simp add: end_game_def py_gt_def)

section \<open>Facts about check_word reading the board\<close>

lemma cell_at_error: "cell_at b r c = Inl e \<Longrightarrow> e = IndexError"
  by (auto simp: cell_at_def py_index_def split: sum.splits if_splits)

lemma board_letter_error: "board_letter t = Inl e \<Longrightarrow> e = IndexError"
  by (auto simp: board_letter_def py_index_def split: sum.splits if_splits)

lemma scan_cells_error: "scan_cells b cells acc = Inl e \<Longrightarrow> e = IndexError"
proof (induction cells arbitrary: acc)
  case Nil
  then show ?case by simp
next
  case (Cons rc rest)
  then show ?case
    by (auto split: sum.splits dest: cell_at_error board_letter_error)
qed

lemma scan_cells_raises:
  "rc \<in> set cells \<Longrightarrow> cell_at b (fst rc) (snd rc) = Inl IndexError
     \<Longrightarrow> scan_cells b cells acc = Inl IndexError"
proof (induction cells arbitrary: acc)
  case Nil
  then show ?case by simp
next
  case (Cons x rest)
  show ?case
  proof (cases "cell_at b (fst x) (snd x)")
    case (Inl e)
    then show ?thesis using cell_at_error [OF Inl] by simp
  next
    case (Inr t)
    then have in_rest: "rc \<in> set rest" using Cons.prems by auto
    show ?thesis
    proof (cases "board_letter t")
      case (Inl e)
      then show ?thesis using Inr board_letter_error [OF Inl] by simp
    next
      case (Inr s)
      then show ?thesis
        using \<open>cell_at b (fst x) (snd x) = Inr t\<close> Cons.IH [OF in_rest Cons.prems(2)] by simp
    qed
  qed
qed

lemma cell_at_beyond_row:
  assumes "grid15 b" and "0 \<le> r" and "r \<le> 14"
  shows "cell_at b r 15 = Inl IndexError"
proof -
  have "nat r < length b" using assms by (simp add: grid15_def)
  then have "b ! nat r \<in> set b" by simp
  then have "length (b ! nat r) = 15" using assms(1) by (simp add: grid15_def list_all_iff)
  then show ?thesis using assms by (simp add: cell_at_def py_index_def grid15_def)
qed

lemma cell_at_beyond_col:
  assumes "grid15 b"
  shows "cell_at b 15 c = Inl IndexError"
  using assms by (simp add: cell_at_def py_index_def grid15_def)

lemma right_cell_15:
  assumes "0 \<le> c" and "c \<le> 14" and "c + int n > 15"
  shows "(r, 15) \<in> set (cells_right (r, c) n)"
proof -
  have mem: "nat (15 - c) \<in> set [0..<n]" using assms by auto
  have "(\<lambda>i. (r, c + int i)) (nat (15 - c)) \<in> set (map (\<lambda>i. (r, c + int i)) [0..<n])"
    using mem by (simp only: set_map) (erule imageI)
  then show ?thesis using assms by (simp add: cells_right_def)
qed

lemma down_cell_15:
  assumes "0 \<le> r" and "r \<le> 14" and "r + int n > 15"
  shows "(15, c) \<in> set (cells_down (r, c) n)"
proof -
  have mem: "nat (15 - r) \<in> set [0..<n]" using assms by auto
  have "(\<lambda>i. (r + int i, c)) (nat (15 - r)) \<in> set (map (\<lambda>i. (r + int i, c)) [0..<n])"
    using mem by (simp only: set_map) (erule imageI)
  then show ?thesis using assms by (simp add: cells_down_def)
qed

lemma check_placement_raises:
  assumes grid: "grid15 (board g)"
    and nonempty: "word wo \<noteq> []"
    and row: "0 \<le> fst (location wo)" "fst (location wo) \<le> 14"
    and col: "0 \<le> snd (location wo)" "snd (location wo) \<le> 14"
    and over: "(direction wo = ''right'' \<and> snd (location wo) + int (length (word wo)) > 15)
             \<or> (direction wo = ''down'' \<and> fst (location wo) + int (length (word wo)) > 15)"
  shows "check_placement wo dict g = Inl IndexError"
proof -
  obtain r c where loc: "location wo = (r, c)" by (cases "location wo")
  from over show ?thesis
  proof
    assume a: "direction wo = ''right'' \<and> snd (location wo) + int (length (word wo)) > 15"
    have "(r, 15) \<in> set (cells_right (r, c) (length (word wo)))"
      using a col loc by (intro right_cell_15) auto
    moreover have "cell_at (board g) r 15 = Inl IndexError"
      using cell_at_beyond_row [OF grid] row loc by simp
    ultimately have "scan_cells (board g) (cells_right (r, c) (length (word wo))) [] = Inl IndexError"
      by (intro scan_cells_raises [where rc = "(r, 15)"]) auto
    then show ?thesis using a nonempty loc by (simp add: check_placement_def)
  next
    assume a: "direction wo = ''down'' \<and> fst (location wo) + int (length (word wo)) > 15"
    have "(15, c) \<in> set (cells_down (r, c) (length (word wo)))"
      using a row loc by (intro down_cell_15) auto
    moreover have "cell_at (board g) 15 c = Inl IndexError"
      using cell_at_beyond_col [OF grid] by simp
    ultimately have "scan_cells (board g) (cells_down (r, c) (length (word wo))) [] = Inl IndexError"
      by (intro scan_cells_raises [where rc = "(15, c)"]) auto
    then show ?thesis using a nonempty loc by (simp add: check_placement_def)
  qed
qed

lemma grid15_new_Board: "grid15 new_Board"
  by code_simp

text \<open>
  C2, evaluated on the code. On a 15 by 15 board, for a non-empty word that starts inside
  the grid and runs over its edge in its direction, \<open>check_word\<close> raises \<open>IndexError\<close>
  in its first loop (unless dic.txt is missing): the bounds test of line 379 is not reached
  and no out-of-bounds message is returned.
\<close>

theorem check_word_overflow_raises:
  assumes "grid15 (board g)"
    and "word wo \<noteq> []"
    and "0 \<le> fst (location wo)" and "fst (location wo) \<le> 14"
    and "0 \<le> snd (location wo)" and "snd (location wo) \<le> 14"
    and "(direction wo = ''right'' \<and> snd (location wo) + int (length (word wo)) > 15)
       \<or> (direction wo = ''down'' \<and> fst (location wo) + int (length (word wo)) > 15)"
    and "(dictionary g, dic_txt g) \<noteq> (None, None)"
  shows "fst (check_word wo g) = Inl IndexError"
proof -
  have "check_placement wo dict g1 = Inl IndexError" if "board g1 = board g" for dict g1
    using assms(1-7) that by (intro check_placement_raises) auto
  then show ?thesis
    using assms(8) by (auto simp: check_word_def split: option.splits)
qed

lemma example_grid: "grid15 (board example_game)"
  by code_simp

lemma example_dic: "(dictionary example_game, dic_txt example_game) \<noteq> (None, None)"
  by code_simp

theorem check_word_overflow_raises_witness:
  "grid15 (board example_game)
   \<and> word (new_Word ''cat'' (14, 14) 0 ''right'') = ''CAT''
   \<and> location (new_Word ''cat'' (14, 14) 0 ''right'') = (14, 14)
   \<and> direction (new_Word ''cat'' (14, 14) 0 ''right'') = ''right''
   \<and> fst (check_word (new_Word ''cat'' (14, 14) 0 ''right'') example_game) = Inl IndexError"
proof -
  have w: "word (new_Word ''cat'' (14, 14) 0 ''right'') = ''CAT''" by code_simp
  have l: "location (new_Word ''cat'' (14, 14) 0 ''right'') = (14, 14)" by code_simp
  have d: "direction (new_Word ''cat'' (14, 14) 0 ''right'') = ''right''" by code_simp
  have "fst (check_word (new_Word ''cat'' (14, 14) 0 ''right'') example_game) = Inl IndexError"
    using check_word_overflow_raises [OF example_grid, of "new_Word ''cat'' (14, 14) 0 ''right''"]
      example_dic
    by (simp add: w l d)
  then show ?thesis using example_grid w l d by simp
qed

text \<open>
  C3, evaluated on the code. In round 2 on the untouched board, AT at (0,0) to the right
  covers the TWS marker cell and an empty cell, no placed letter, and \<open>check_word\<close>
  returns \<open>True\<close>: the marker cell is not read as empty, because the cell text carries
  the colour codes that \<open>strip()\<close> leaves in place.
\<close>

theorem premium_cells_pass_connectivity:
  "fst (check_word (new_Word ''at'' (0, 0) 0 ''right'') after_two_skips) = Inr Valid
   \<and> round_number after_two_skips = 2
   \<and> cell_at (board after_two_skips) 0 0 = Inr TWS
   \<and> cell_at (board after_two_skips) 0 1 = Inr EMPTY"
proof -
  have "fst (check_word (new_Word ''at'' (0, 0) 0 ''right'') after_two_skips) = Inr Valid"
    by code_simp
  moreover have "round_number after_two_skips = 2" by code_simp
  moreover have "cell_at (board after_two_skips) 0 0 = Inr TWS" by code_simp
  moreover have "cell_at (board after_two_skips) 0 1 = Inr EMPTY" by code_simp
  ultimately show ?thesis by simp
qed

section \<open>Facts about place_word and scoring\<close>

text \<open>
  C6, evaluated on the code. Bob plays AT downwards from (6,7) in round 1 (a placement
  \<open>check_word\<close> accepts). The letters are written to (6,7) and (7,7); of these target
  cells only (7,7), the centre marker, was not empty. The recorded bonus trigger is the
  DLS marker of cell (6,8), which the word does not cover: the \<open>down\<close> branch tests the
  cells of the row, not the cells it writes.
\<close>

theorem place_word_down_reads_row:
  "fst (check_word (new_Word ''at'' (6, 7) 1 ''down'') after_one_skip) = Inr Valid
   \<and> map_sum id premium_spots (place_word (\<lambda>xs. xs) ''at'' (6, 7) ''down'' 1 after_one_skip)
       = Inr [(CHR ''T'', DLS)]
   \<and> map_sum id (\<lambda>g. (cell_at (board g) 6 7, cell_at (board g) 7 7))
       (place_word (\<lambda>xs. xs) ''at'' (6, 7) ''down'' 1 after_one_skip)
       = Inr (Inr (letter_cell CHR ''A''), Inr (letter_cell CHR ''T''))
   \<and> cell_at (board after_one_skip) 6 7 = Inr EMPTY
   \<and> cell_at (board after_one_skip) 7 7 = Inr CENTER
   \<and> cell_at (board after_one_skip) 6 8 = Inr DLS"
proof -
  have "fst (check_word (new_Word ''at'' (6, 7) 1 ''down'') after_one_skip) = Inr Valid"
    by code_simp
  moreover have "map_sum id premium_spots
      (place_word (\<lambda>xs. xs) ''at'' (6, 7) ''down'' 1 after_one_skip) = Inr [(CHR ''T'', DLS)]"
    by code_simp
  moreover have "map_sum id (\<lambda>g. (cell_at (board g) 6 7, cell_at (board g) 7 7))
       (place_word (\<lambda>xs. xs) ''at'' (6, 7) ''down'' 1 after_one_skip)
       = Inr (Inr (letter_cell CHR ''A''), Inr (letter_cell CHR ''T''))"
    by code_simp
  moreover have "cell_at (board after_one_skip) 6 7 = Inr EMPTY" by code_simp
  moreover have "cell_at (board after_one_skip) 7 7 = Inr CENTER" by code_simp
  moreover have "cell_at (board after_one_skip) 6 8 = Inr DLS" by code_simp
  ultimately show ?thesis by simp
qed

text \<open>
  C1 fails as stated. AT placed on two TLS cells, and on a TWS cell followed by a TLS
  cell, adds 2 to the score in both cases, not 6 and 18. And with the triggers recorded
  under the bare marker texts that \<open>calculate_word_score\<close> compares with, the TWS and
  TLS pair scores 12, not 18.
\<close>

theorem at_on_premium_cells_counterexample:
  "fst (check_word (new_Word ''at'' (7, 7) 1 ''right'')
          (after_one_skip\<lparr>board := premium_pair_board TLS TLS\<rparr>)) = Inr Valid
   \<and> map_sum id (\<lambda>g. score (players g ! 1) - score (players after_one_skip ! 1))
       (play_word (\<lambda>xs. xs) ''at'' (7, 7) ''right'' (new_Word ''at'' (7, 7) 1 ''right'') 1
          (after_one_skip\<lparr>board := premium_pair_board TLS TLS\<rparr>)) = Inr 2
   \<and> map_sum id (\<lambda>g. score (players g ! 1) - score (players after_one_skip ! 1))
       (play_word (\<lambda>xs. xs) ''at'' (7, 7) ''right'' (new_Word ''at'' (7, 7) 1 ''right'') 1
          (after_one_skip\<lparr>board := premium_pair_board TWS TLS\<rparr>)) = Inr 2
   \<and> word_score_of ''AT'' [(CHR ''A'', ''TWS''), (CHR ''T'', ''TLS'')] = Inr 12"
proof -
  have "fst (check_word (new_Word ''at'' (7, 7) 1 ''right'')
          (after_one_skip\<lparr>board := premium_pair_board TLS TLS\<rparr>)) = Inr Valid"
    by code_simp
  moreover have "map_sum id (\<lambda>g. score (players g ! 1) - score (players after_one_skip ! 1))
       (play_word (\<lambda>xs. xs) ''at'' (7, 7) ''right'' (new_Word ''at'' (7, 7) 1 ''right'') 1
          (after_one_skip\<lparr>board := premium_pair_board TLS TLS\<rparr>)) = Inr 2"
    by code_simp
  moreover have "map_sum id (\<lambda>g. score (players g ! 1) - score (players after_one_skip ! 1))
       (play_word (\<lambda>xs. xs) ''at'' (7, 7) ''right'' (new_Word ''at'' (7, 7) 1 ''right'') 1
          (after_one_skip\<lparr>board := premium_pair_board TWS TLS\<rparr>)) = Inr 2"
    by code_simp
  moreover have "word_score_of ''AT'' [(CHR ''A'', ''TWS''), (CHR ''T'', ''TLS'')] = Inr 12"
    by code_simp
  ultimately show ?thesis by simp
qed

text \<open>
  C1 as amended. Given bonus triggers recorded under the bare marker texts,
  \<open>calculate_word_score\<close> for the word AT adds 6 to the acting player's score when both
  letters have a TLS trigger, and 12 = (1 + 3) * 3 when one letter has a TWS trigger and
  the other a TLS trigger: the letter on the triple-word cell counts once.
\<close>

theorem at_score_from_marker_triggers:
  "map_sum id (\<lambda>g1. score (players g1 ! 0))
     (calculate_word_score \<lparr>word = ''AT'', location = loc, player = 0, direction = d\<rparr>
        (g\<lparr>premium_spots := [(CHR ''A'', ''TLS''), (CHR ''T'', ''TLS'')], players := pl # pls\<rparr>))
     = Inr (score pl + 6)
   \<and> map_sum id (\<lambda>g1. score (players g1 ! 0))
     (calculate_word_score \<lparr>word = ''AT'', location = loc, player = 0, direction = d\<rparr>
        (g\<lparr>premium_spots := [(CHR ''A'', ''TWS''), (CHR ''T'', ''TLS'')], players := pl # pls\<rparr>))
     = Inr (score pl + 12)
   \<and> map_sum id (\<lambda>g1. score (players g1 ! 0))
     (calculate_word_score \<lparr>word = ''AT'', location = loc, player = 0, direction = d\<rparr>
        (g\<lparr>premium_spots := [(CHR ''A'', ''TLS''), (CHR ''T'', ''TWS'')], players := pl # pls\<rparr>))
     = Inr (score pl + 12)"
  by (simp add: calculate_word_score_def word_score_of_def LETTER_VALUES_def increase_score_def)

section \<open>Facts about the verdict of check_word\<close>

text \<open>
  C9. Whatever the word, location, direction, board, player and round, \<open>check_word\<close>
  leaves the board array, the list of players (so every rack and every score), the bag,
  the round number, the skip counter and the recorded bonus triggers as they were; the
  only thing it may bind is the global \<open>dictionary\<close>. Calling it again on the state it
  leaves returns, or raises, the same as the first call.
\<close>

theorem check_word_changes_nothing:
  "board (snd (check_word wo g)) = board g
   \<and> players (snd (check_word wo g)) = players g
   \<and> tile_bag (snd (check_word wo g)) = tile_bag g
   \<and> round_number (snd (check_word wo g)) = round_number g
   \<and> skipped_turns (snd (check_word wo g)) = skipped_turns g
   \<and> premium_spots (snd (check_word wo g)) = premium_spots g
   \<and> fst (check_word wo (snd (check_word wo g))) = fst (check_word wo g)"
  by (simp add: check_word_def split: option.splits)

lemma board_letter_length: "board_letter t = Inr s \<Longrightarrow> length s = 1"
  by (auto simp: board_letter_def split: if_splits sum.splits)

lemma scan_cells_extends:
  "scan_cells b cells acc = Inr s \<Longrightarrow> \<exists>t. s = acc @ t \<and> length t = length cells"
proof (induction cells arbitrary: acc)
  case Nil
  then show ?case by simp
next
  case (Cons rc rest)
  then obtain bt p where bt: "cell_at b (fst rc) (snd rc) = Inr bt"
      and p: "board_letter bt = Inr p"
      and rest: "scan_cells b rest (acc @ p) = Inr s"
    by (auto split: sum.splits)
  from Cons.IH [OF rest] obtain t where "s = (acc @ p) @ t" "length t = length rest" by blast
  then show ?case using board_letter_length [OF p] by simp
qed

lemma scan_cells_blank:
  "scan_cells b cells acc = Inr s \<Longrightarrow>
     (s = acc @ replicate (length cells) CHR '' '') = list_all (reads_blank b) cells"
proof (induction cells arbitrary: acc)
  case Nil
  then show ?case by simp
next
  case (Cons rc rest)
  then obtain bt p where bt: "cell_at b (fst rc) (snd rc) = Inr bt"
      and p: "board_letter bt = Inr p"
      and rest: "scan_cells b rest (acc @ p) = Inr s"
    by (auto split: sum.splits)
  obtain c where pc: "p = [c]"
    using board_letter_length [OF p] by (cases p) auto
  from scan_cells_extends [OF rest] obtain t where t: "s = (acc @ p) @ t" "length t = length rest"
    by blast
  have ih: "(s = (acc @ p) @ replicate (length rest) CHR '' '') = list_all (reads_blank b) rest"
    by (rule Cons.IH [OF rest])
  have "(s = acc @ replicate (length (rc # rest)) CHR '' '')
          = (c = CHR '' '' \<and> t = replicate (length rest) CHR '' '')"
    using t pc by auto
  also have "\<dots> = (reads_blank b rc \<and> list_all (reads_blank b) rest)"
    using ih t pc bt p by (auto simp: reads_blank_def)
  finally show ?case by simp
qed

lemma touch_after_scan:
  "scan_cells b cells acc = Inr s \<Longrightarrow> touch_cells b cells = Inr ()"
  by (induction cells arbitrary: acc) (auto split: sum.splits)

lemma check_placement_in_order:
  assumes "check_placement wo dict g = Inr v"
  shows "v = (if word wo = [] then NoVerdict
      else if direction wo \<noteq> ''right'' \<and> direction wo \<noteq> ''down'' then Message MSG_DIRECTION
      else if word wo \<notin> set dict then Message MSG_DICTIONARY
      else if round_number g > 1 \<and> touches_nothing wo g then Message MSG_CONNECT
      else if off_board wo then Message MSG_BOUNDS
      else if round_number g = 1 \<and> player wo = 0 \<and> location wo \<noteq> (7, 7)
      then Message MSG_CENTER
      else Valid)"
proof (cases "word wo = [] \<or> (direction wo \<noteq> ''right'' \<and> direction wo \<noteq> ''down'')")
  case True
  then show ?thesis using assms by (auto simp: check_placement_def)
next
  case False
  then have cells: "(if direction wo = ''right''
               then Some (cells_right (location wo) (length (word wo)))
               else if direction wo = ''down''
               then Some (cells_down (location wo) (length (word wo)))
               else None) = Some (covered_cells wo)"
    by (auto simp: covered_cells_def)
  from assms False cells obtain s where s: "scan_cells (board g) (covered_cells wo) [] = Inr s"
    by (auto simp: check_placement_def split: sum.splits)
  have blank: "(s = replicate (length (word wo)) CHR '' '') = touches_nothing wo g"
    using scan_cells_blank [OF s] False
    by (auto simp: touches_nothing_def covered_cells_def cells_right_def cells_down_def)
  have touch: "touch_cells (board g) (covered_cells wo) = Inr ()"
    by (rule touch_after_scan [OF s])
  from False have dir: "\<not> (direction wo \<noteq> ''right'' \<and> direction wo \<noteq> ''down'')"
    and ne: "word wo \<noteq> []"
    by auto
  have "check_placement wo dict g =
      (if word wo \<notin> set dict then Inr (Message MSG_DICTIONARY)
       else if round_number g > 1 \<and> touches_nothing wo g then Inr (Message MSG_CONNECT)
       else if off_board wo then Inr (Message MSG_BOUNDS)
       else if round_number g = 1
       then (if players g = [] then Inl IndexError
             else if player wo = 0 \<and> location wo \<noteq> (7, 7) then Inr (Message MSG_CENTER)
             else Inr Valid)
       else Inr Valid)"
    using ne blank by (simp add: check_placement_def cells s touch lacks_tiles_def)
  then show ?thesis
    using assms by (simp only: dir ne if_False) (auto split: if_splits)
qed

text \<open>
  C8 as amended. Whenever \<open>check_word\<close> returns, what it returns is: nothing for the
  empty word; otherwise the first reason that applies in the order invalid direction,
  word not in the lexicon, not connected, out of bounds, not at the centre; otherwise
  \<open>True\<close>. The missing-tiles message is never returned.
\<close>

theorem check_word_order:
  assumes "fst (check_word wo g) = Inr v"
  shows "v = verdict_in_order wo g"
proof (cases "dictionary g")
  case (Some dict)
  then have "check_placement wo dict g = Inr v"
    using assms by (simp add: check_word_def)
  from check_placement_in_order [OF this] show ?thesis
    using Some by (simp add: verdict_in_order_def lexicon_def)
next
  case None
  then obtain ls where ls: "dic_txt g = Some ls"
    using assms by (auto simp: check_word_def split: option.splits)
  then have "check_placement wo ls (g\<lparr>dictionary := Some ls\<rparr>) = Inr v"
    using assms None by (simp add: check_word_def)
  from check_placement_in_order [OF this] show ?thesis
    using None ls by (simp add: verdict_in_order_def lexicon_def touches_nothing_def)
qed

theorem check_word_order_witness:
  "fst (check_word (new_Word ''at'' (-2, 2) 0 ''right'') after_two_skips) = Inr (Message MSG_CONNECT)
   \<and> verdict_in_order (new_Word ''at'' (-2, 2) 0 ''right'') after_two_skips = Message MSG_CONNECT"
proof -
  have r: "fst (check_word (new_Word ''at'' (-2, 2) 0 ''right'') after_two_skips)
             = Inr (Message MSG_CONNECT)"
    by code_simp
  from check_word_order [OF r] r show ?thesis by simp
qed

text \<open>
  C8 fails as stated. The empty word gets no message at all (the call returns \<open>None\<close>),
  and AT at row -2 in round 2 on the untouched board, which is both out of bounds and
  not connected, gets the connection message, not the out-of-bounds one.
\<close>

theorem check_word_order_counterexample:
  "fst (check_word (new_Word [] (7, 7) 0 ''right'') example_game) = Inr NoVerdict
   \<and> off_board (new_Word ''at'' (-2, 2) 0 ''right'')
   \<and> fst (check_word (new_Word ''at'' (-2, 2) 0 ''right'') after_two_skips)
       = Inr (Message MSG_CONNECT)
   \<and> MSG_CONNECT \<noteq> MSG_BOUNDS"
proof -
  have "fst (check_word (new_Word [] (7, 7) 0 ''right'') example_game) = Inr NoVerdict"
    by code_simp
  moreover have "off_board (new_Word ''at'' (-2, 2) 0 ''right'')"
    by code_simp
  moreover have "fst (check_word (new_Word ''at'' (-2, 2) 0 ''right'') after_two_skips)
       = Inr (Message MSG_CONNECT)"
    by code_simp
  moreover have "MSG_CONNECT \<noteq> MSG_BOUNDS"
    by code_simp
  ultimately show ?thesis by simp
qed

section \<open>Facts about the rack after place_word\<close>

lemma remove_pass_match:
  "i < length r \<Longrightarrow> letter (r ! i) = l
     \<Longrightarrow> remove_pass l i r = remove_pass l (Suc i) (remove1 (r ! i) r)"
  by (subst remove_pass.simps) (simp add: remove_from_rack_def)

lemma remove_pass_other:
  "i < length r \<Longrightarrow> letter (r ! i) \<noteq> l \<Longrightarrow> remove_pass l i r = remove_pass l (Suc i) r"
  by (subst remove_pass.simps) simp

lemma remove_pass_done: "length r \<le> i \<Longrightarrow> remove_pass l i r = Inr r"
  by (subst remove_pass.simps) simp

text \<open>The pass walks over tiles of other letters without changing the rack.\<close>

lemma remove_pass_skip:
  "i \<le> j \<Longrightarrow> j \<le> length r \<Longrightarrow> (\<forall>k. i \<le> k \<and> k < j \<longrightarrow> letter (r ! k) \<noteq> l)
     \<Longrightarrow> remove_pass l i r = remove_pass l j r"
proof (induction "j - i" arbitrary: i)
  case 0
  then show ?case by simp
next
  case (Suc n)
  then have "i < j" by simp
  then have "remove_pass l i r = remove_pass l (Suc i) r"
    using Suc.prems by (intro remove_pass_other) auto
  also have "\<dots> = remove_pass l j r"
    using Suc by (intro Suc.hyps(1)) auto
  finally show ?case .
qed

lemma remove_pass_rest_other:
  assumes "\<forall>k. i \<le> k \<and> k < length r \<longrightarrow> letter (r ! k) \<noteq> l"
  shows "remove_pass l i r = Inr r"
proof (cases "i \<le> length r")
  case True
  then have "remove_pass l i r = remove_pass l (length r) r"
    using assms by (intro remove_pass_skip) auto
  then show ?thesis by (simp add: remove_pass_done)
next
  case False
  then show ?thesis by (simp add: remove_pass_done)
qed

lemma filter_remove1_other: "\<not> P x \<Longrightarrow> filter P (remove1 x xs) = filter P xs"
  by (induction xs) auto

lemma remove_pass_total:
  "\<exists>r1. remove_pass l i r = Inr r1
        \<and> filter (\<lambda>t. letter t \<noteq> l) r1 = filter (\<lambda>t. letter t \<noteq> l) r
        \<and> mset r1 \<subseteq># mset r"
proof (induction l i r rule: remove_pass.induct)
  case (1 l i r)
  show ?case
  proof (cases "i < length r")
    case False
    then show ?thesis by (simp add: remove_pass_done)
  next
    case True
    show ?thesis
    proof (cases "letter (r ! i) = l")
      case False
      then show ?thesis
        using True "1.IH"(2) by (simp add: remove_pass_other)
    next
      case match: True
      have "remove_from_rack (r ! i) r = Inr (remove1 (r ! i) r)"
        using True by (simp add: remove_from_rack_def)
      from "1.IH"(1) [OF True match this]
      obtain r1 where r1: "remove_pass l (Suc i) (remove1 (r ! i) r) = Inr r1"
        "filter (\<lambda>t. letter t \<noteq> l) r1 = filter (\<lambda>t. letter t \<noteq> l) (remove1 (r ! i) r)"
        "mset r1 \<subseteq># mset (remove1 (r ! i) r)"
        by blast
      have "mset (remove1 (r ! i) r) \<subseteq># mset r"
        by (simp add: mset_remove1)
      with r1(3) have "mset r1 \<subseteq># mset r"
        by (rule subset_mset.order_trans)
      moreover have "filter (\<lambda>t. letter t \<noteq> l) r1 = filter (\<lambda>t. letter t \<noteq> l) r"
        using r1(2) match by (simp add: filter_remove1_other)
      ultimately show ?thesis
        using r1(1) True match by (simp add: remove_pass_match)
    qed
  qed
qed

lemma remove1_middle: "a \<notin> set xs \<Longrightarrow> remove1 a (xs @ a # ys) = xs @ ys"
  by (simp add: remove1_append)

lemma remove_pass_two_apart:
  assumes a: "letter a = l" and b: "letter b = l" and ys: "ys \<noteq> []"
    and others: "l \<notin> letter ` set (xs @ ys @ zs)"
  shows "remove_pass l 0 (xs @ a # ys @ b # zs) = Inr (xs @ ys @ zs)"
proof -
  let ?r0 = "xs @ a # ys @ b # zs"
  let ?r1 = "xs @ ys @ b # zs"
  let ?r2 = "xs @ ys @ zs"
  have xs_other: "\<And>k. k < length xs \<Longrightarrow> letter (xs ! k) \<noteq> l"
    using others by (metis UnCI image_eqI nth_mem set_append)
  have ys_other: "\<And>k. k < length ys \<Longrightarrow> letter (ys ! k) \<noteq> l"
    using others by (metis UnCI image_eqI nth_mem set_append)
  have zs_other: "\<And>k. k < length zs \<Longrightarrow> letter (zs ! k) \<noteq> l"
    using others by (metis UnCI image_eqI nth_mem set_append)
  have a_xs: "a \<notin> set xs" using a others by auto
  have b_xs: "b \<notin> set xs" and b_ys: "b \<notin> set ys" using b others by auto
  have ys_len: "Suc 0 \<le> length ys" using ys by (cases ys) auto
  have "remove_pass l 0 ?r0 = remove_pass l (length xs) ?r0"
    using xs_other by (intro remove_pass_skip) (auto simp: nth_append)
  also have "\<dots> = remove_pass l (Suc (length xs)) (remove1 (?r0 ! length xs) ?r0)"
    using a by (intro remove_pass_match) auto
  also have "remove1 (?r0 ! length xs) ?r0 = ?r1"
    using a_xs by (simp add: remove1_middle)
  also have "remove_pass l (Suc (length xs)) ?r1 = remove_pass l (length xs + length ys) ?r1"
    using ys_len ys_other by (intro remove_pass_skip) (auto simp: nth_append)
  also have "\<dots> = remove_pass l (Suc (length xs + length ys))
                      (remove1 (?r1 ! (length xs + length ys)) ?r1)"
    using b by (intro remove_pass_match) (auto simp: nth_append)
  also have "remove1 (?r1 ! (length xs + length ys)) ?r1 = ?r2"
    using b_xs b_ys remove1_middle [of b "xs @ ys" zs] by (simp add: nth_append)
  also have "remove_pass l (Suc (length xs + length ys)) ?r2 = Inr ?r2"
  proof (rule remove_pass_rest_other, intro allI impI)
    fix k
    assume k: "Suc (length xs + length ys) \<le> k \<and> k < length ?r2"
    then have "?r2 ! k = zs ! (k - (length xs + length ys))"
      by (auto simp: nth_append)
    moreover have "k - (length xs + length ys) < length zs" using k by auto
    ultimately show "letter (?r2 ! k) \<noteq> l" using zs_other by simp
  qed
  finally show ?thesis .
qed

lemma remove_pass_two_adjacent:
  assumes a: "letter a = l" and b: "letter b = l"
    and others: "l \<notin> letter ` set (xs @ zs)"
  shows "remove_pass l 0 (xs @ a # b # zs) = Inr (xs @ b # zs)"
proof -
  let ?r0 = "xs @ a # b # zs"
  let ?r1 = "xs @ b # zs"
  have xs_other: "\<And>k. k < length xs \<Longrightarrow> letter (xs ! k) \<noteq> l"
    using others by (metis UnCI image_eqI nth_mem set_append)
  have zs_other: "\<And>k. k < length zs \<Longrightarrow> letter (zs ! k) \<noteq> l"
    using others by (metis UnCI image_eqI nth_mem set_append)
  have a_xs: "a \<notin> set xs" using a others by auto
  have "remove_pass l 0 ?r0 = remove_pass l (length xs) ?r0"
    using xs_other by (intro remove_pass_skip) (auto simp: nth_append)
  also have "\<dots> = remove_pass l (Suc (length xs)) (remove1 (?r0 ! length xs) ?r0)"
    using a by (intro remove_pass_match) auto
  also have "remove1 (?r0 ! length xs) ?r0 = ?r1"
    using a_xs by (simp add: remove1_middle)
  also have "remove_pass l (Suc (length xs)) ?r1 = Inr ?r1"
  proof (rule remove_pass_rest_other, intro allI impI)
    fix k
    assume k: "Suc (length xs) \<le> k \<and> k < length ?r1"
    then have "?r1 ! k = zs ! (k - Suc (length xs))"
      by (simp add: nth_append nth_Cons')
    moreover have "k - Suc (length xs) < length zs" using k by auto
    ultimately show "letter (?r1 ! k) \<noteq> l" using zs_other by simp
  qed
  finally show ?thesis .
qed

lemma remove_pass_no_match:
  assumes "l \<notin> letter ` set r"
  shows "remove_pass l 0 r = Inr r"
  using assms by (intro remove_pass_rest_other) auto

lemma remove_used_total: "\<exists>r1. remove_used w r = Inr r1 \<and> mset r1 \<subseteq># mset r"
proof (induction w arbitrary: r)
  case Nil
  then show ?case by simp
next
  case (Cons l ls)
  from remove_pass_total [of l 0 r] obtain r1 where
    r1: "remove_pass l 0 r = Inr r1" "mset r1 \<subseteq># mset r" by blast
  from Cons.IH [of r1] obtain r2 where r2: "remove_used ls r1 = Inr r2" "mset r2 \<subseteq># mset r1"
    by blast
  from r1 r2 show ?case
    by (auto intro: subset_mset.order_trans)
qed

text \<open>A draw succeeds and leaves a bag that is not empty.\<close>

lemma take_from_bag_ok:
  assumes "is_shuffle sh"
  shows "\<exists>t b1. take_from_bag sh b = Inr (t, b1) \<and> bag b1 \<noteq> []"
proof (cases "length (bag b) < 10")
  case True
  from take_from_bag_refill [OF assms True] obtain t b1 where
    t: "take_from_bag sh b = Inr (t, b1)" "length (bag b1) = length (bag b) + 105" by blast
  from t(2) have "bag b1 \<noteq> []" by auto
  with t(1) show ?thesis by blast
next
  case False
  then have ten: "10 \<le> length (bag b)" by simp
  from take_from_bag_plain [OF this, of sh] obtain t b1 where
    t: "take_from_bag sh b = Inr (t, b1)" "length (bag b1) = length (bag b) - 1" by blast
  from t(2) ten have "0 < length (bag b1)" by linarith
  then have "bag b1 \<noteq> []" by simp
  with t(1) show ?thesis by blast
qed

lemma replenish_rack_empty_bag: "bag b = [] \<Longrightarrow> replenish_rack sh r b = Inr (r, b)"
  by (subst replenish_rack.simps) (simp add: get_remaining_tiles_def)

lemma replenish_rack_fills:
  assumes "is_shuffle sh" and "bag b \<noteq> []"
  shows "\<exists>r2 b2 drawn. replenish_rack sh r b = Inr (r2, b2) \<and> r2 = r @ drawn
           \<and> length r2 = max 7 (length r)"
  using assms(2)
proof (induction "7 - length r" arbitrary: r b)
  case 0
  then have "replenish_rack sh r b = Inr (r, b)"
    by (subst replenish_rack.simps) (simp add: get_rack_length_def)
  then show ?case using 0 by auto
next
  case (Suc n)
  from take_from_bag_ok [OF assms(1), of b] obtain t b1 where
    t: "take_from_bag sh b = Inr (t, b1)" "bag b1 \<noteq> []" by blast
  have short: "length r < 7" using Suc.hyps(2) by linarith
  have step: "replenish_rack sh r b = replenish_rack sh (r @ [t]) b1"
    using short Suc.prems t
    by (subst replenish_rack.simps)
       (simp add: get_rack_length_def get_remaining_tiles_def add_to_rack_def)
  have "n = 7 - length (r @ [t])" using Suc.hyps(2) by simp
  from Suc.hyps(1) [OF this t(2)] obtain r2 b2 drawn where
    "replenish_rack sh (r @ [t]) b1 = Inr (r2, b2)" "r2 = (r @ [t]) @ drawn"
    "length r2 = max 7 (length (r @ [t]))" by blast
  then show ?case using step short by auto
qed

lemma place_word_rack:
  assumes sh: "is_shuffle sh" and p: "p < length (players g)"
    and pw: "place_word sh w loc d p g = Inr g1"
  shows "\<exists>r1 b2 drawn. remove_used (upper w) (rack (players g ! p)) = Inr r1
            \<and> replenish_rack sh r1 (tile_bag g) = Inr (rack (players g1 ! p), b2)
            \<and> rack (players g1 ! p) = r1 @ drawn
            \<and> (if bag (tile_bag g) = [] then drawn = []
                else length (rack (players g1 ! p)) = max 7 (length r1))"
proof -
  from pw obtain b1 spots r1 r2 bag2 where
    r1: "remove_used (upper w) (rack (players g ! p)) = Inr r1"
    and r2: "replenish_rack sh r1 (tile_bag g) = Inr (r2, bag2)"
    and g1: "g1 = g\<lparr>board := b1, premium_spots := spots, tile_bag := bag2,
                    players := (players g)[p := (players g ! p)\<lparr>rack := r2\<rparr>]\<rparr>"
    by (auto simp: place_word_def Let_def split: sum.splits prod.splits)
  have rk: "rack (players g1 ! p) = r2" using g1 p by simp
  show ?thesis
  proof (cases "bag (tile_bag g) = []")
    case True
    then have "r2 = r1" using r2 by (simp add: replenish_rack_empty_bag)
    then show ?thesis using r1 r2 rk True by auto
  next
    case False
    from replenish_rack_fills [OF sh False, of r1] r2
    obtain drawn where "r2 = r1 @ drawn" "length r2 = max 7 (length r1)" by auto
    then show ?thesis using r1 r2 rk False by auto
  qed
qed

text \<open>
  C10. The pass over the rack for one letter \<open>l\<close>, started at any index, never raises;
  it leaves the tiles of other letters in place and in order and only takes tiles away.
  A visited tile of letter \<open>l\<close> is removed and the index moves on by one over the
  shortened list. So a letter without a tile in the rack changes nothing and raises
  nothing; of two tiles of the letter that are not neighbours (and no third) both are
  removed, although the letter is passed once; of two neighbours only the first is
  removed. \<open>place_word\<close> runs this pass once for every letter of the upper-cased word
  and then replenishes: the new rack is what the passes left, followed by the tiles
  drawn, seven tiles or more when the bag was not empty.
\<close>

theorem place_word_rack_removal:
  "(\<exists>r1. remove_pass l i r = Inr r1
          \<and> filter (\<lambda>t. letter t \<noteq> l) r1 = filter (\<lambda>t. letter t \<noteq> l) r
          \<and> mset r1 \<subseteq># mset r)
   \<and> (i < length r \<and> letter (r ! i) = l \<longrightarrow>
        remove_pass l i r = remove_pass l (Suc i) (remove1 (r ! i) r))
   \<and> (l \<notin> letter ` set r \<longrightarrow> remove_pass l 0 r = Inr r)
   \<and> (letter a = l \<and> letter b = l \<and> ys \<noteq> [] \<and> l \<notin> letter ` set (xs @ ys @ zs) \<longrightarrow>
        remove_pass l 0 (xs @ a # ys @ b # zs) = Inr (xs @ ys @ zs))
   \<and> (letter a = l \<and> letter b = l \<and> l \<notin> letter ` set (xs @ zs) \<longrightarrow>
        remove_pass l 0 (xs @ a # b # zs) = Inr (xs @ b # zs))
   \<and> (\<exists>r1. remove_used w r = Inr r1 \<and> mset r1 \<subseteq># mset r)
   \<and> (is_shuffle sh \<and> p < length (players g) \<and> place_word sh w loc d p g = Inr g1 \<longrightarrow>
        (\<exists>r1 b2 drawn. remove_used (upper w) (rack (players g ! p)) = Inr r1
            \<and> replenish_rack sh r1 (tile_bag g) = Inr (rack (players g1 ! p), b2)
            \<and> rack (players g1 ! p) = r1 @ drawn
            \<and> (if bag (tile_bag g) = [] then drawn = []
                else length (rack (players g1 ! p)) = max 7 (length r1))))"
proof (intro conjI impI)
  show "\<exists>r1. remove_pass l i r = Inr r1
          \<and> filter (\<lambda>t. letter t \<noteq> l) r1 = filter (\<lambda>t. letter t \<noteq> l) r
          \<and> mset r1 \<subseteq># mset r"
    by (rule remove_pass_total)
next
  assume "i < length r \<and> letter (r ! i) = l"
  then show "remove_pass l i r = remove_pass l (Suc i) (remove1 (r ! i) r)"
    by (simp add: remove_pass_match)
next
  assume "l \<notin> letter ` set r"
  then show "remove_pass l 0 r = Inr r" by (rule remove_pass_no_match)
next
  assume "letter a = l \<and> letter b = l \<and> ys \<noteq> [] \<and> l \<notin> letter ` set (xs @ ys @ zs)"
  then show "remove_pass l 0 (xs @ a # ys @ b # zs) = Inr (xs @ ys @ zs)"
    by (intro remove_pass_two_apart) auto
next
  assume "letter a = l \<and> letter b = l \<and> l \<notin> letter ` set (xs @ zs)"
  then show "remove_pass l 0 (xs @ a # b # zs) = Inr (xs @ b # zs)"
    by (intro remove_pass_two_adjacent) auto
next
  show "\<exists>r1. remove_used w r = Inr r1 \<and> mset r1 \<subseteq># mset r"
    by (rule remove_used_total)
next
  assume "is_shuffle sh \<and> p < length (players g) \<and> place_word sh w loc d p g = Inr g1"
  then show "\<exists>r1 b2 drawn. remove_used (upper w) (rack (players g ! p)) = Inr r1
            \<and> replenish_rack sh r1 (tile_bag g) = Inr (rack (players g1 ! p), b2)
            \<and> rack (players g1 ! p) = r1 @ drawn
            \<and> (if bag (tile_bag g) = [] then drawn = []
                else length (rack (players g1 ! p)) = max 7 (length r1))"
    by (intro place_word_rack) auto
qed

theorem place_word_rack_removal_witness:
  "remove_pass CHR ''A'' 0 (rack_of_letters ''ABACDEF'') = Inr (rack_of_letters ''BCDEF'')
   \<and> remove_pass CHR ''A'' 0 (rack_of_letters ''AABCDEF'') = Inr (rack_of_letters ''ABCDEF'')
   \<and> remove_pass CHR ''T'' 0 (rack_of_letters ''BCDEF'') = Inr (rack_of_letters ''BCDEF'')
   \<and> map_sum id (\<lambda>g1. map letter (rack (players g1 ! 0)))
        (place_word (\<lambda>xs. xs) ''at'' (7, 7) ''right'' 0 (game_with_rack ''ABACDEF''))
       = Inr ''BCDEFTT''"
proof -
  let ?A = "Tile 0 CHR ''A'' LETTER_VALUES"
  let ?B = "Tile 0 CHR ''B'' LETTER_VALUES"
  have apart: "remove_pass CHR ''A'' 0 (rack_of_letters ''ABACDEF'')
                 = Inr (rack_of_letters ''BCDEF'')"
    using place_word_rack_removal [where l = "CHR ''A''" and a = ?A and b = ?A and xs = "[]"
        and ys = "[?B]" and zs = "rack_of_letters ''CDEF''"]
    by (simp add: rack_of_letters_def Tile_def upper_char_def)
  have adjacent: "remove_pass CHR ''A'' 0 (rack_of_letters ''AABCDEF'')
                 = Inr (rack_of_letters ''ABCDEF'')"
    using place_word_rack_removal [where l = "CHR ''A''" and a = ?A and b = ?A and xs = "[]"
        and zs = "rack_of_letters ''BCDEF''"]
    by (simp add: rack_of_letters_def Tile_def upper_char_def)
  have none: "remove_pass CHR ''T'' 0 (rack_of_letters ''BCDEF'') = Inr (rack_of_letters ''BCDEF'')"
    using place_word_rack_removal [where l = "CHR ''T''" and r = "rack_of_letters ''BCDEF''"]
    by (simp add: rack_of_letters_def Tile_def upper_char_def)
  have played: "map_sum id (\<lambda>g1. map letter (rack (players g1 ! 0)))
        (place_word (\<lambda>xs. xs) ''at'' (7, 7) ''right'' 0 (game_with_rack ''ABACDEF''))
       = Inr ''BCDEFTT''"
    by code_simp
  from apart adjacent none played show ?thesis
    by simp
qed

end
